theory Spec2Isabelle
  imports Main
begin

section \<open>The spelling bee solver (spellingbeesolver.cpp)\<close>

text \<open>
  A \<^verbatim>\<open>char\<close> of the program is a byte, a \<^verbatim>\<open>std::string\<close> a list of bytes, the
  \<^verbatim>\<open>std::unordered_set<char>\<close> a set of bytes (the program only inserts into it and
  asks for membership), and the \<^verbatim>\<open>std::vector<std::string>\<close> a list of strings.
\<close>

subsection \<open>Characters\<close>

text \<open>
  \<^verbatim>\<open>toupper\<close> of the C library takes and returns an \<^verbatim>\<open>int\<close>. The program never
  calls \<^verbatim>\<open>setlocale\<close>, so the "C" locale is in force: the letters \<^verbatim>\<open>a\<close> to \<^verbatim>\<open>z\<close>
  (97 to 122) are mapped to \<^verbatim>\<open>A\<close> to \<^verbatim>\<open>Z\<close> and every other value is returned as it is.
  The argument \<^verbatim>\<open>input[i]\<close> is a \<^verbatim>\<open>char\<close> promoted to \<^verbatim>\<open>int\<close> (a signed char on the
  usual platforms, so a byte from 128 on is a negative number, which the C library
  returns unchanged), and the result is converted back to \<^verbatim>\<open>char\<close> when it is inserted
  into the set or returned.
\<close>

definition char_to_int :: "char \<Rightarrow> int" where
  "char_to_int c = (if (of_char c :: int) < 128 then of_char c else of_char c - 256)"

definition int_to_char :: "int \<Rightarrow> char" where
  "int_to_char i = char_of i"

definition toupper :: "int \<Rightarrow> int" where
  "toupper c = (if 97 \<le> c \<and> c \<le> 122 then c - 32 else c)"

text \<open>The lower-case letters of the "C" locale (what \<^verbatim>\<open>islower\<close> accepts there).\<close>

definition islower :: "int \<Rightarrow> bool" where
  "islower c = (97 \<le> c \<and> c \<le> 122)"

subsection \<open>Input streams and \<^verbatim>\<open>std::getline\<close>\<close>

text \<open>
  An input stream (\<^verbatim>\<open>std::cin\<close>, a \<^verbatim>\<open>std::ifstream\<close>) is the bytes it has not yet
  delivered and its two state bits. Read errors of the device (\<^verbatim>\<open>badbit\<close>) are not
  modelled.
\<close>

record istream =
  buf :: string
  eofbit :: bool
  failbit :: bool

definition newline :: char where
  "newline = CHR 0x0A"

text \<open>
  \<^verbatim>\<open>std::ifstream dictionary(filename)\<close>: the argument is the contents of the file when it
  can be opened and \<open>None\<close> when it cannot; then the constructor sets \<^verbatim>\<open>failbit\<close>.
\<close>

definition ifstream_ctor :: "string option \<Rightarrow> istream" where
  "ifstream_ctor file =
     (case file of
        None \<Rightarrow> \<lparr>buf = [], eofbit = False, failbit = True\<rparr>
      | Some bytes \<Rightarrow> \<lparr>buf = bytes, eofbit = False, failbit = False\<rparr>)"

text \<open>
  \<^verbatim>\<open>std::getline(strm, str)\<close>. The sentry fails on a stream that is not good: it sets
  \<^verbatim>\<open>failbit\<close> and leaves \<open>str\<close> alone. Otherwise \<open>str\<close> is erased and bytes are moved
  into it up to the end of the input (which sets \<^verbatim>\<open>eofbit\<close>) or up to a newline (which
  is taken from the stream and dropped). When nothing at all was taken, \<^verbatim>\<open>failbit\<close> is
  set. The result is the stream and the new \<open>str\<close>; the \<^verbatim>\<open>while\<close> of the program tests
  the stream, which is true when \<^verbatim>\<open>failbit\<close> is not set.
\<close>

definition getline :: "istream \<Rightarrow> string \<Rightarrow> istream \<times> string" where
  "getline strm str =
     (if failbit strm \<or> eofbit strm then (strm\<lparr>failbit := True\<rparr>, str)
      else
        (let line = takeWhile (\<lambda>c. c \<noteq> newline) (buf strm);
             rest = dropWhile (\<lambda>c. c \<noteq> newline) (buf strm)
         in case rest of
              [] \<Rightarrow> (strm\<lparr>buf := [], eofbit := True, failbit := (line = [])\<rparr>, line)
            | delim # rest' \<Rightarrow> (strm\<lparr>buf := rest'\<rparr>, line)))"

text \<open>The three cases of \<^verbatim>\<open>std::getline\<close>, and the progress it makes when it succeeds.\<close>

lemma getline_bad:
  "failbit strm \<or> eofbit strm \<Longrightarrow> getline strm str = (strm\<lparr>failbit := True\<rparr>, str)"
  by (simp add: getline_def)

lemma getline_eof:
  assumes "\<not> failbit strm" "\<not> eofbit strm" "newline \<notin> set (buf strm)"
  shows "getline strm str =
           (strm\<lparr>buf := [], eofbit := True, failbit := (buf strm = [])\<rparr>, buf strm)"
proof -
  from assms(3) have "takeWhile (\<lambda>c. c \<noteq> newline) (buf strm) = buf strm"
    and "dropWhile (\<lambda>c. c \<noteq> newline) (buf strm) = []"
    by (auto intro: takeWhile_eq_all_conv [THEN iffD2])
  with assms(1,2) show ?thesis
    by (simp add: getline_def Let_def del: dropWhile_eq_Nil_conv takeWhile_eq_all_conv)
qed

lemma getline_line:
  assumes "\<not> failbit strm" "\<not> eofbit strm" "buf strm = line @ newline # rest"
    "newline \<notin> set line"
  shows "getline strm str = (strm\<lparr>buf := rest\<rparr>, line)"
proof -
  from assms(4) have no_nl: "\<And>c. c \<in> set line \<Longrightarrow> c \<noteq> newline"
    by auto
  have "takeWhile (\<lambda>c. c \<noteq> newline) (buf strm) = line"
    and "dropWhile (\<lambda>c. c \<noteq> newline) (buf strm) = newline # rest"
    unfolding assms(3) using no_nl by (simp_all add: takeWhile_append2 dropWhile_append2)
  with assms(1,2) show ?thesis
    by (simp add: getline_def Let_def del: dropWhile_eq_Nil_conv takeWhile_eq_all_conv)
qed

lemma getline_progress:
  assumes "getline strm str = (strm', str')" "\<not> failbit strm'"
  shows "length (buf strm') < length (buf strm)"
proof -
  from assms have good: "\<not> failbit strm" "\<not> eofbit strm"
    by (auto simp: getline_bad)
  show ?thesis
  proof (cases "newline \<in> set (buf strm)")
    case True
    then obtain line rest where "buf strm = line @ newline # rest" "newline \<notin> set line"
      by (auto dest: split_list_first)
    with good assms(1) show ?thesis by (auto simp: getline_line)
  next
    case False
    with good assms show ?thesis by (auto simp: getline_eof)
  qed
qed

text \<open>
  The lines of a stream: what the calls \<^verbatim>\<open>std::getline(strm, str)\<close> deliver one after
  the other until the stream tests false.
\<close>

function getlines :: "istream \<Rightarrow> string \<Rightarrow> string list" where
  "getlines strm str =
     (let (strm', str') = getline strm str in
      if failbit strm' then [] else str' # getlines strm' str')"
  by pat_completeness auto
termination
proof (relation "measure (\<lambda>(strm, str). length (buf strm))")
  show "wf (measure (\<lambda>(strm, str). length (buf strm)))"
    by simp
next
  fix strm str x strm' str'
  assume "x = getline strm str" "(strm', str') = x" "\<not> failbit strm'"
  then have "length (buf strm') < length (buf strm)"
    using getline_progress [of strm str strm' str'] by simp
  then show "((strm', str'), (strm, str)) \<in> measure (\<lambda>(strm, str). length (buf strm))"
    by simp
qed

declare getlines.simps [simp del]

subsection \<open>\<^verbatim>\<open>isValidWord\<close>\<close>

definition kMinWordLength :: nat where
  "kMinWordLength = 4"

text \<open>\<^verbatim>\<open>word.find(middle)\<close>: the first position of the byte, \<open>None\<close> for \<^verbatim>\<open>npos\<close>.\<close>

fun string_find :: "string \<Rightarrow> char \<Rightarrow> nat option" where
  "string_find [] c = None"
| "string_find (x # xs) c =
     (if x = c then Some 0 else map_option Suc (string_find xs c))"

text \<open>\<^verbatim>\<open>letters.count(ch)\<close> of an unordered set: 1 for a member, 0 otherwise.\<close>

definition set_count :: "char set \<Rightarrow> char \<Rightarrow> nat" where
  "set_count letters ch = (if ch \<in> letters then 1 else 0)"

text \<open>The \<^verbatim>\<open>for (char ch : word)\<close> loop of \<^verbatim>\<open>isValidWord\<close>.\<close>

fun isValidWord_loop :: "string \<Rightarrow> char set \<Rightarrow> bool" where
  "isValidWord_loop [] letters = True"
| "isValidWord_loop (ch # rest) letters =
     (if set_count letters ch = 0 then False else isValidWord_loop rest letters)"

definition isValidWord :: "string \<Rightarrow> char set \<Rightarrow> char \<Rightarrow> bool" where
  "isValidWord word letters middle =
     (if length word < kMinWordLength then False
      else if string_find word middle = None then False
      else isValidWord_loop word letters)"

subsection \<open>\<^verbatim>\<open>getLettersFromUser\<close>\<close>

text \<open>
  \<^verbatim>\<open>input[0]\<close> of a \<^verbatim>\<open>std::string\<close>: at the position \<^verbatim>\<open>size()\<close> the operator gives the
  null byte, so on the empty string it is defined and is \<open>0\<close>.
\<close>

definition string_at0 :: "string \<Rightarrow> char" where
  "string_at0 s = (case s of [] \<Rightarrow> CHR 0x00 | c # _ \<Rightarrow> c)"

text \<open>The \<^verbatim>\<open>for\<close> loop over the positions of \<open>input\<close>, inserting into \<open>letters\<close>.\<close>

fun getLetters_loop :: "string \<Rightarrow> char set \<Rightarrow> char set" where
  "getLetters_loop [] letters = letters"
| "getLetters_loop (ch # rest) letters =
     getLetters_loop rest (insert (int_to_char (toupper (char_to_int ch))) letters)"

text \<open>
  The function reads one line of \<^verbatim>\<open>std::cin\<close> (the prompt it prints is left out) and
  gives back the stream, the set it has filled in and the middle character.
\<close>

definition getLettersFromUser :: "istream \<Rightarrow> char set \<Rightarrow> istream \<times> char set \<times> char" where
  "getLettersFromUser cin letters =
     (let (cin', input) = getline cin [] in
      (cin', getLetters_loop input letters,
       int_to_char (toupper (char_to_int (string_at0 input)))))"

subsection \<open>\<^verbatim>\<open>solveSpellingBee\<close>\<close>

text \<open>
  The \<^verbatim>\<open>while (std::getline(dictionary, word))\<close> loop. Each round that reads a line
  consumes at least one byte of the stream, so the loop ends.
\<close>

function solveSpellingBee_loop ::
  "char set \<Rightarrow> char \<Rightarrow> istream \<Rightarrow> string \<Rightarrow> string list \<Rightarrow> istream \<times> string list" where
  "solveSpellingBee_loop letters middle dictionary word result =
     (let (dictionary', word') = getline dictionary word in
      if failbit dictionary' then (dictionary', result)
      else solveSpellingBee_loop letters middle dictionary' word'
             (if isValidWord word' letters middle then result @ [word'] else result))"
  by pat_completeness auto
termination
  by (relation "measure (\<lambda>(letters, middle, dictionary, word, result). length (buf dictionary))")
    (auto dest: getline_progress [OF sym])

declare solveSpellingBee_loop.simps [simp del]

text \<open>
  The function changes the stream and the vector it is given by reference and returns
  \<^verbatim>\<open>result.size()\<close>: the model returns the count, the vector and the stream. The count
  is a \<^verbatim>\<open>size_t\<close>; a vector cannot hold more elements than that type counts, so the
  natural number is the value returned.
\<close>

definition solveSpellingBee ::
  "char set \<Rightarrow> char \<Rightarrow> istream \<Rightarrow> string list \<Rightarrow> nat \<times> string list \<times> istream" where
  "solveSpellingBee letters middle dictionary result =
     (let (dictionary', result') = solveSpellingBee_loop letters middle dictionary [] result
      in (length result', result', dictionary'))"

subsection \<open>Output streams and \<^verbatim>\<open>writeResultToFile\<close>\<close>

text \<open>
  The file system as the program sees it: the contents of the files that can be opened
  for reading, and the names that can be opened for writing.
\<close>

record filesystem =
  files :: "string \<rightharpoonup> string"
  writable :: "string \<Rightarrow> bool"

text \<open>An output stream is the bytes written to it and its \<^verbatim>\<open>failbit\<close>.\<close>

record ostream =
  obuf :: string
  ofailbit :: bool

text \<open>
  \<^verbatim>\<open>std::ofstream out(filename)\<close> truncates or creates the file; when the file cannot be
  opened the stream has \<^verbatim>\<open>failbit\<close> set and the file system is as before.
\<close>

definition ofstream_ctor :: "filesystem \<Rightarrow> string \<Rightarrow> filesystem \<times> ostream" where
  "ofstream_ctor fs filename =
     (if writable fs filename
      then (fs\<lparr>files := (files fs)(filename \<mapsto> [])\<rparr>, \<lparr>obuf = [], ofailbit = False\<rparr>)
      else (fs, \<lparr>obuf = [], ofailbit = True\<rparr>))"

text \<open>\<^verbatim>\<open>out << word\<close> and \<^verbatim>\<open>out << std::endl\<close>: nothing is written to a failed stream.\<close>

definition put_string :: "ostream \<Rightarrow> string \<Rightarrow> ostream" where
  "put_string out s = (if ofailbit out then out else out\<lparr>obuf := obuf out @ s\<rparr>)"

definition endl :: "ostream \<Rightarrow> ostream" where
  "endl out = put_string out [newline]"

text \<open>When the stream goes out of scope, what was written is the contents of the file.\<close>

definition ofstream_dtor :: "filesystem \<Rightarrow> string \<Rightarrow> ostream \<Rightarrow> filesystem" where
  "ofstream_dtor fs filename out =
     (if ofailbit out then fs else fs\<lparr>files := (files fs)(filename \<mapsto> obuf out)\<rparr>)"

fun writeResultToFile_loop :: "ostream \<Rightarrow> string list \<Rightarrow> ostream" where
  "writeResultToFile_loop out [] = out"
| "writeResultToFile_loop out (word # rest) =
     writeResultToFile_loop (endl (put_string out word)) rest"

definition writeResultToFile :: "filesystem \<Rightarrow> string \<Rightarrow> string list \<Rightarrow> filesystem" where
  "writeResultToFile fs filename result =
     (let (fs', out) = ofstream_ctor fs filename;
          out' = writeResultToFile_loop out result
      in ofstream_dtor fs' filename out')"

section \<open>Properties of \<^verbatim>\<open>isValidWord\<close>\<close>

lemma string_find_None: "string_find w c = None \<longleftrightarrow> c \<notin> set w"
  by (induction w) auto

lemma isValidWord_loop_iff: "isValidWord_loop w letters \<longleftrightarrow> set w \<subseteq> letters"
  by (induction w) (auto simp: set_count_def)

lemma isValidWord_iff:
  "isValidWord w letters m \<longleftrightarrow> 4 \<le> length w \<and> m \<in> set w \<and> set w \<subseteq> letters"
  by (auto simp: isValidWord_def kMinWordLength_def string_find_None isValidWord_loop_iff)

text \<open>
  Claim C1. A word shorter than four characters is never valid; a word of four or more
  characters is valid exactly when the middle letter occurs in it and every one of its
  characters is in the letter set.
\<close>

theorem isValidWord_spec:
  "(length w < 4 \<longrightarrow> \<not> isValidWord w letters m) \<and>
   (4 \<le> length w \<longrightarrow>
      (isValidWord w letters m \<longleftrightarrow> m \<in> set w \<and> (\<forall>c \<in> set w. c \<in> letters)))"
  by (auto simp: isValidWord_iff)

theorem isValidWord_spec_witness:
  "length ''ANT'' < 4 \<and>
   \<not> isValidWord ''ANT'' {CHR ''A'', CHR ''N'', CHR ''T'', CHR ''O'', CHR ''B''} CHR ''N'' \<and>
   4 \<le> length ''BATON'' \<and>
   isValidWord ''BATON'' {CHR ''A'', CHR ''N'', CHR ''T'', CHR ''O'', CHR ''B''} CHR ''N'' \<and>
   4 \<le> length ''BEAT'' \<and>
   \<not> isValidWord ''BEAT'' {CHR ''A'', CHR ''N'', CHR ''T'', CHR ''O'', CHR ''B''} CHR ''N''"
  using isValidWord_spec [of "''ANT''" "{CHR ''A'', CHR ''N'', CHR ''T'', CHR ''O'', CHR ''B''}" "CHR ''N''"]
    isValidWord_spec [of "''BATON''" "{CHR ''A'', CHR ''N'', CHR ''T'', CHR ''O'', CHR ''B''}" "CHR ''N''"]
    isValidWord_spec [of "''BEAT''" "{CHR ''A'', CHR ''N'', CHR ''T'', CHR ''O'', CHR ''B''}" "CHR ''N''"]
  by simp

section \<open>Properties of the scan\<close>

lemma solveSpellingBee_loop_result:
  "snd (solveSpellingBee_loop letters middle dictionary word result) =
     result @ filter (\<lambda>w. isValidWord w letters middle) (getlines dictionary word)"
proof (induction letters middle dictionary word result rule: solveSpellingBee_loop.induct)
  case (1 letters middle dictionary word result)
  obtain dictionary' word' where g: "getline dictionary word = (dictionary', word')"
    by (cases "getline dictionary word")
  show ?case
  proof (cases "failbit dictionary'")
    case True
    with g show ?thesis
      by (simp add: solveSpellingBee_loop.simps [of _ _ dictionary] getlines.simps [of dictionary])
  next
    case False
    with g "1.IH" [of "(dictionary', word')" dictionary' word'] show ?thesis
      by (simp add: solveSpellingBee_loop.simps [of _ _ dictionary] getlines.simps [of dictionary])
  qed
qed

lemma solveSpellingBee_result:
  "fst (snd (solveSpellingBee letters middle dictionary result)) =
     result @ filter (\<lambda>w. isValidWord w letters middle) (getlines dictionary [])"
  using solveSpellingBee_loop_result [of letters middle dictionary "[]" result]
  by (auto simp: solveSpellingBee_def split: prod.splits)

lemma solveSpellingBee_count:
  "fst (solveSpellingBee letters middle dictionary result) =
     length (fst (snd (solveSpellingBee letters middle dictionary result)))"
  by (simp add: solveSpellingBee_def split: prod.splits)

lemma getlines_failed: "failbit strm \<Longrightarrow> getlines strm str = []"
  by (simp add: getlines.simps [of strm] getline_bad)

lemma getlines_text:
  assumes "\<forall>w \<in> set ws. newline \<notin> set w" "\<not> failbit strm" "\<not> eofbit strm"
    "buf strm = concat (map (\<lambda>w. w @ [newline]) ws)"
  shows "getlines strm str = ws"
  using assms
proof (induction ws arbitrary: strm str)
  case Nil
  then show ?case
    by (simp add: getlines.simps [of strm] getline_eof)
next
  case (Cons w ws)
  from Cons.prems have g: "getline strm str = (strm\<lparr>buf := concat (map (\<lambda>w. w @ [newline]) ws)\<rparr>, w)"
    by (intro getline_line) simp_all
  from Cons.prems have "getlines (strm\<lparr>buf := concat (map (\<lambda>w. w @ [newline]) ws)\<rparr>) w = ws"
    by (intro Cons.IH) simp_all
  with g Cons.prems(2) show ?case
    by (simp add: getlines.simps [of strm])
qed

lemma getlines_ifstream_text:
  "\<forall>w \<in> set ws. newline \<notin> set w \<Longrightarrow>
   getlines (ifstream_ctor (Some (concat (map (\<lambda>w. w @ [newline]) ws)))) str = ws"
  by (rule getlines_text) (simp_all add: ifstream_ctor_def)

text \<open>
  Claim C2. The result of a scan that starts with an empty vector is the lines of the
  dictionary stream that \<^verbatim>\<open>isValidWord\<close> accepts, in the order of the stream, each as
  often as it occurs; in particular, for a dictionary file made of the lines \<open>ws\<close>, each
  ended by a newline, it is the accepted words of \<open>ws\<close> in the order of \<open>ws\<close>.
\<close>

theorem solveSpellingBee_order:
  "fst (snd (solveSpellingBee letters middle dictionary [])) =
     filter (\<lambda>w. isValidWord w letters middle) (getlines dictionary []) \<and>
   ((\<forall>w \<in> set ws. newline \<notin> set w) \<longrightarrow>
    fst (snd (solveSpellingBee letters middle
      (ifstream_ctor (Some (concat (map (\<lambda>w. w @ [newline]) ws)))) [])) =
     filter (\<lambda>w. isValidWord w letters middle) ws)"
  by (simp add: solveSpellingBee_result getlines_ifstream_text)

theorem solveSpellingBee_order_witness:
  "newline \<notin> set ''BOLT'' \<and> newline \<notin> set ''BOAT'' \<and> newline \<notin> set ''TOTAL'' \<and>
   fst (snd (solveSpellingBee {CHR ''B'', CHR ''O'', CHR ''L'', CHR ''T''} CHR ''B''
      (ifstream_ctor (Some (concat (map (\<lambda>w. w @ [newline])
         [''BOLT'', ''BOAT'', ''TOTAL'', ''BOLT''])))) [])) =
     [''BOLT'', ''BOLT'']"
  using solveSpellingBee_order [of "{CHR ''B'', CHR ''O'', CHR ''L'', CHR ''T''}" "CHR ''B''"
      "ifstream_ctor None" "[''BOLT'', ''BOAT'', ''TOTAL'', ''BOLT'']"]
  by (simp add: newline_def isValidWord_iff)

text \<open>
  Claim C5. With the empty letter set the scan accepts no word: the result is empty
  and the count is zero, for every middle letter and every dictionary stream. The
  membership loop passes on the empty set for the empty word only.
\<close>

theorem solveSpellingBee_no_letters:
  "fst (solveSpellingBee {} middle dictionary []) = 0 \<and>
   fst (snd (solveSpellingBee {} middle dictionary [])) = [] \<and>
   (isValidWord_loop w {} \<longleftrightarrow> w = [])"
proof -
  have "\<not> isValidWord v {} middle" for v
    by (auto simp: isValidWord_iff)
  then show ?thesis
    by (simp add: solveSpellingBee_count solveSpellingBee_result isValidWord_loop_iff)
qed

text \<open>
  Claim C6. On a dictionary stream that could not be opened (its \<^verbatim>\<open>failbit\<close> is set)
  the scan reads nothing and returns the count zero and the empty result.
\<close>

theorem solveSpellingBee_unopened:
  "failbit dictionary \<Longrightarrow>
   solveSpellingBee letters middle dictionary [] = (0, [], dictionary)"
  by (simp add: solveSpellingBee_def solveSpellingBee_loop.simps [of _ _ dictionary] getline_bad)

theorem solveSpellingBee_unopened_witness:
  "failbit (ifstream_ctor None) \<and>
   solveSpellingBee {CHR ''A'', CHR ''B''} CHR ''A'' (ifstream_ctor None) [] =
     (0, [], ifstream_ctor None)"
proof -
  have h: "failbit (ifstream_ctor None)"
    by (simp add: ifstream_ctor_def)
  from h solveSpellingBee_unopened [OF h] show ?thesis
    by simp
qed

text \<open>
  Claim C7. Two scans with the same letters and middle letter, over two streams that
  deliver the same lines, give the same result and the same count.
\<close>

theorem solveSpellingBee_deterministic:
  "getlines dictionary1 [] = getlines dictionary2 [] \<Longrightarrow>
   fst (snd (solveSpellingBee letters middle dictionary1 [])) =
     fst (snd (solveSpellingBee letters middle dictionary2 [])) \<and>
   fst (solveSpellingBee letters middle dictionary1 []) =
     fst (solveSpellingBee letters middle dictionary2 [])"
  by (simp add: solveSpellingBee_count solveSpellingBee_result)

theorem solveSpellingBee_deterministic_witness:
  "getlines (ifstream_ctor (Some (''ABBA'' @ newline # ''BAA''))) [] =
     getlines (ifstream_ctor (Some (''ABBA'' @ newline # ''BAA'' @ [newline]))) [] \<and>
   fst (snd (solveSpellingBee {CHR ''A'', CHR ''B''} CHR ''A''
     (ifstream_ctor (Some (''ABBA'' @ newline # ''BAA''))) [])) =
   fst (snd (solveSpellingBee {CHR ''A'', CHR ''B''} CHR ''A''
     (ifstream_ctor (Some (''ABBA'' @ newline # ''BAA'' @ [newline]))) [])) \<and>
   fst (snd (solveSpellingBee {CHR ''A'', CHR ''B''} CHR ''A''
     (ifstream_ctor (Some (''ABBA'' @ newline # ''BAA''))) [])) = [''ABBA'']"
proof -
  have h: "getlines (ifstream_ctor (Some (''ABBA'' @ newline # ''BAA''))) [] =
     getlines (ifstream_ctor (Some (''ABBA'' @ newline # ''BAA'' @ [newline]))) []"
    by code_simp
  have r: "fst (snd (solveSpellingBee {CHR ''A'', CHR ''B''} CHR ''A''
     (ifstream_ctor (Some (''ABBA'' @ newline # ''BAA''))) [])) = [''ABBA'']"
    by code_simp
  from h r solveSpellingBee_deterministic [OF h, of "{CHR ''A'', CHR ''B''}" "CHR ''A''"]
  show ?thesis by simp
qed

text \<open>
  Claim C10. Whatever the vector holds at the call, the scan leaves it as a prefix and
  appends the accepted words; the count returned is the length of the whole vector, and
  it is the number of accepted words exactly when the vector was empty at the call.
\<close>

theorem solveSpellingBee_appends:
  "fst (snd (solveSpellingBee letters middle dictionary result)) =
     result @ filter (\<lambda>w. isValidWord w letters middle) (getlines dictionary []) \<and>
   fst (solveSpellingBee letters middle dictionary result) =
     length (fst (snd (solveSpellingBee letters middle dictionary result))) \<and>
   (fst (solveSpellingBee letters middle dictionary result) =
      length (filter (\<lambda>w. isValidWord w letters middle) (getlines dictionary [])) \<longleftrightarrow>
    result = [])"
  by (simp add: solveSpellingBee_count solveSpellingBee_result)

section \<open>Letters\<close>

lemma of_char_range: "0 \<le> (of_char c :: int) \<and> (of_char c :: int) < 256"
  using pos_mod_sign [of 256 "of_char c :: int"] pos_mod_bound [of 256 "of_char c :: int"]
  by simp

lemma char_to_int_inverse: "int_to_char (char_to_int c) = c"
proof -
  have "((of_char c :: int) - 256) mod 256 = of_char c mod 256"
    by (rule minus_mod_self2)
  then have "char_of ((of_char c :: int) - 256) = char_of (of_char c :: int)"
    by (simp only: char_of_quasi_inj)
  then show ?thesis
    by (simp add: int_to_char_def char_to_int_def)
qed

lemma toupper_char:
  "int_to_char (toupper (char_to_int c)) =
     (if islower (char_to_int c) then char_of ((of_char c :: int) - 32) else c)"
  using of_char_range [of c] char_to_int_inverse [of c]
  by (auto simp: toupper_def islower_def char_to_int_def int_to_char_def)

lemma toupper_not_lower: "\<not> islower (char_to_int (int_to_char (toupper (char_to_int c))))"
proof (cases "islower (char_to_int c)")
  case True
  then have r: "97 \<le> (of_char c :: int)" "(of_char c :: int) \<le> 122"
    using of_char_range [of c] by (auto simp: islower_def char_to_int_def split: if_splits)
  from True have u: "int_to_char (toupper (char_to_int c)) = char_of ((of_char c :: int) - 32)"
    by (simp add: toupper_char)
  from r have "(of_char (char_of ((of_char c :: int) - 32)) :: int) = of_char c - 32"
    by simp
  with r show ?thesis
    unfolding u by (simp add: islower_def char_to_int_def)
next
  case False
  then show ?thesis by (simp add: toupper_char)
qed

lemma getLetters_loop_set:
  "getLetters_loop input letters =
     letters \<union> (\<lambda>ch. int_to_char (toupper (char_to_int ch))) ` set input"
  by (induction input arbitrary: letters) auto

lemma getLettersFromUser_no_lower:
  assumes "islower (char_to_int c)"
  shows "c \<notin> fst (snd (getLettersFromUser cin {}))"
proof
  assume "c \<in> fst (snd (getLettersFromUser cin {}))"
  then obtain x where "c = int_to_char (toupper (char_to_int x))"
    by (auto simp: getLettersFromUser_def getLetters_loop_set split: prod.splits)
  with assms toupper_not_lower [of x] show False by simp
qed

text \<open>
  Claim C3. The letter set that \<^verbatim>\<open>getLettersFromUser\<close> fills in, starting from the empty
  set as \<^verbatim>\<open>main\<close> does, holds no lower-case letter. So a word made of lower-case
  letters only is rejected by \<^verbatim>\<open>isValidWord\<close> for every middle letter, whatever its
  length, and when it has a character at all it fails the membership loop.
\<close>

theorem isValidWord_rejects_lower_case:
  "\<forall>c \<in> set w. islower (char_to_int c) \<Longrightarrow>
   \<not> isValidWord w (fst (snd (getLettersFromUser cin {}))) m \<and>
   (w \<noteq> [] \<longrightarrow> \<not> isValidWord_loop w (fst (snd (getLettersFromUser cin {}))))"
proof -
  assume lower: "\<forall>c \<in> set w. islower (char_to_int c)"
  have loop: "\<not> isValidWord_loop w (fst (snd (getLettersFromUser cin {})))" if "w \<noteq> []"
  proof -
    from that obtain c where "c \<in> set w" by (cases w) auto
    with lower getLettersFromUser_no_lower [of c cin] show ?thesis
      by (auto simp: isValidWord_loop_iff)
  qed
  show ?thesis
  proof (cases "w = []")
    case True
    then show ?thesis by (simp add: isValidWord_def kMinWordLength_def)
  next
    case False
    with loop show ?thesis by (simp add: isValidWord_def)
  qed
qed

theorem isValidWord_rejects_lower_case_witness:
  "islower (char_to_int CHR ''b'') \<and> islower (char_to_int CHR ''a'') \<and>
   islower (char_to_int CHR ''t'') \<and> islower (char_to_int CHR ''o'') \<and>
   islower (char_to_int CHR ''n'') \<and>
   fst (snd (getLettersFromUser (ifstream_ctor (Some (''nabloty'' @ [newline]))) {})) =
     {CHR ''N'', CHR ''A'', CHR ''B'', CHR ''L'', CHR ''O'', CHR ''T'', CHR ''Y''} \<and>
   \<not> isValidWord ''baton''
       {CHR ''N'', CHR ''A'', CHR ''B'', CHR ''L'', CHR ''O'', CHR ''T'', CHR ''Y''} CHR ''N'' \<and>
   \<not> isValidWord_loop ''baton''
       {CHR ''N'', CHR ''A'', CHR ''B'', CHR ''L'', CHR ''O'', CHR ''T'', CHR ''Y''}"
proof -
  have l: "\<forall>c \<in> set ''baton''. islower (char_to_int c)"
    by (simp add: islower_def char_to_int_def)
  have s: "fst (snd (getLettersFromUser (ifstream_ctor (Some (''nabloty'' @ [newline]))) {})) =
     {CHR ''N'', CHR ''A'', CHR ''B'', CHR ''L'', CHR ''O'', CHR ''T'', CHR ''Y''}"
    by (simp add: getLettersFromUser_def getline_def ifstream_ctor_def newline_def
        toupper_def char_to_int_def int_to_char_def char_of_def insert_commute)
  have i: "islower (char_to_int CHR ''b'') \<and> islower (char_to_int CHR ''a'') \<and>
      islower (char_to_int CHR ''t'') \<and> islower (char_to_int CHR ''o'') \<and>
      islower (char_to_int CHR ''n'')"
    using l by simp
  have n: "''baton'' \<noteq> []"
    by simp
  from isValidWord_rejects_lower_case
    [OF l, of "ifstream_ctor (Some (''nabloty'' @ [newline]))" "CHR ''N''", unfolded s] n
  have "\<not> isValidWord ''baton''
       {CHR ''N'', CHR ''A'', CHR ''B'', CHR ''L'', CHR ''O'', CHR ''T'', CHR ''Y''} CHR ''N'' \<and>
     \<not> isValidWord_loop ''baton''
       {CHR ''N'', CHR ''A'', CHR ''B'', CHR ''L'', CHR ''O'', CHR ''T'', CHR ''Y''}"
    by blast
  with i s show ?thesis by blast
qed

text \<open>
  Claim C9. When the line read from the user is not empty, the middle character that
  \<^verbatim>\<open>getLettersFromUser\<close> returns is a member of the letter set it has filled in.
\<close>

theorem getLettersFromUser_middle_member:
  "snd (getline cin []) \<noteq> [] \<Longrightarrow>
   snd (snd (getLettersFromUser cin letters)) \<in> fst (snd (getLettersFromUser cin letters))"
  by (cases "snd (getline cin [])")
    (auto simp: getLettersFromUser_def getLetters_loop_set string_at0_def split: prod.splits)

theorem getLettersFromUser_middle_member_witness:
  "snd (getline (ifstream_ctor (Some (''nabloty'' @ [newline]))) []) = ''nabloty'' \<and>
   snd (snd (getLettersFromUser (ifstream_ctor (Some (''nabloty'' @ [newline]))) {})) = CHR ''N'' \<and>
   CHR ''N'' \<in> fst (snd (getLettersFromUser (ifstream_ctor (Some (''nabloty'' @ [newline]))) {}))"
proof -
  have g: "snd (getline (ifstream_ctor (Some (''nabloty'' @ [newline]))) []) = ''nabloty''"
    by (simp add: getline_def ifstream_ctor_def newline_def)
  then have h: "snd (getline (ifstream_ctor (Some (''nabloty'' @ [newline]))) []) \<noteq> []"
    by simp
  have m: "snd (snd (getLettersFromUser (ifstream_ctor (Some (''nabloty'' @ [newline]))) {})) = CHR ''N''"
    by (simp add: getLettersFromUser_def getline_def ifstream_ctor_def newline_def
        toupper_def char_to_int_def int_to_char_def char_of_def string_at0_def)
  from getLettersFromUser_middle_member [OF h, of "{}"] g m show ?thesis
    by simp
qed

section \<open>Writing the result\<close>

lemma writeResultToFile_loop_obuf:
  "\<not> ofailbit out \<Longrightarrow>
   writeResultToFile_loop out ws =
     out\<lparr>obuf := obuf out @ concat (map (\<lambda>w. w @ [newline]) ws)\<rparr>"
  by (induction ws arbitrary: out) (simp_all add: put_string_def endl_def)

lemma writeResultToFile_files:
  "writable fs filename \<Longrightarrow>
   files (writeResultToFile fs filename ws) filename =
     Some (concat (map (\<lambda>w. w @ [newline]) ws))"
  by (simp add: writeResultToFile_def ofstream_ctor_def ofstream_dtor_def
      writeResultToFile_loop_obuf)

text \<open>
  Claim C8. When the destination can be opened for writing and no word of the result
  holds a newline, the file that \<^verbatim>\<open>writeResultToFile\<close> leaves, opened and read line by
  line with \<^verbatim>\<open>std::getline\<close>, delivers the words of the result in their order.
\<close>

theorem writeResultToFile_roundtrip:
  assumes "writable fs filename" and "\<forall>w \<in> set result. newline \<notin> set w"
  shows "getlines (ifstream_ctor (files (writeResultToFile fs filename result) filename)) [] =
           result"
  using assms by (simp add: writeResultToFile_files getlines_ifstream_text)

theorem writeResultToFile_roundtrip_witness:
  "writable \<lparr>files = Map.empty, writable = (\<lambda>name. True)\<rparr> ''out.txt'' \<and>
   newline \<notin> set ''BATON'' \<and> newline \<notin> set '''' \<and> newline \<notin> set ''BALLOON'' \<and>
   files (writeResultToFile \<lparr>files = Map.empty, writable = (\<lambda>name. True)\<rparr> ''out.txt''
            [''BATON'', '''', ''BALLOON'']) ''out.txt'' =
     Some (''BATON'' @ newline # newline # ''BALLOON'' @ [newline]) \<and>
   getlines (ifstream_ctor (files
      (writeResultToFile \<lparr>files = Map.empty, writable = (\<lambda>name. True)\<rparr> ''out.txt''
         [''BATON'', '''', ''BALLOON'']) ''out.txt'')) [] =
     [''BATON'', '''', ''BALLOON'']"
proof -
  have w: "writable \<lparr>files = Map.empty, writable = (\<lambda>name. True)\<rparr> ''out.txt''"
    by simp
  have n: "\<forall>w \<in> set [''BATON'', '''', ''BALLOON'']. newline \<notin> set w"
    by (simp add: newline_def)
  have f: "files (writeResultToFile \<lparr>files = Map.empty, writable = (\<lambda>name. True)\<rparr> ''out.txt''
            [''BATON'', '''', ''BALLOON'']) ''out.txt'' =
     Some (''BATON'' @ newline # newline # ''BALLOON'' @ [newline])"
    by (simp add: writeResultToFile_def ofstream_ctor_def ofstream_dtor_def put_string_def
        endl_def)
  from writeResultToFile_roundtrip [OF w n] w n f show ?thesis
    by simp
qed

section \<open>The example of the specification\<close>

text \<open>
  Claim C4, as the specification states it, fails: the words of the example are in lower
  case and the letters in upper case, and the program compares bytes.
\<close>

theorem example_lower_case_counterexample:
  "fst (snd (solveSpellingBee
      {CHR ''A'', CHR ''B'', CHR ''L'', CHR ''N'', CHR ''O'', CHR ''T'', CHR ''Y''} CHR ''N''
      (ifstream_ctor (Some (''ant'' @ newline # ''baton'' @ newline # ''balloon'' @ newline #
         ''tybalt'' @ newline # ''xyz'' @ [newline]))) [])) \<noteq> [''baton'', ''balloon'']"
  by code_simp

text \<open>
  Claim C4, amended. With the letters A, B, L, N, O, T, Y and the middle letter N, the
  scan of the dictionary ANT, BATON, BALLOON, TYBALT, XYZ (one word on each line, in
  upper case as the letters are) gives BATON, BALLOON in that order and the count 2;
  the scan of the same words in lower case gives the empty result.
\<close>

theorem example_upper_case:
  "solveSpellingBee
      {CHR ''A'', CHR ''B'', CHR ''L'', CHR ''N'', CHR ''O'', CHR ''T'', CHR ''Y''} CHR ''N''
      (ifstream_ctor (Some (''ANT'' @ newline # ''BATON'' @ newline # ''BALLOON'' @ newline #
         ''TYBALT'' @ newline # ''XYZ'' @ [newline]))) [] =
     (2, [''BATON'', ''BALLOON''], \<lparr>buf = [], eofbit = True, failbit = True\<rparr>) \<and>
   fst (snd (solveSpellingBee
      {CHR ''A'', CHR ''B'', CHR ''L'', CHR ''N'', CHR ''O'', CHR ''T'', CHR ''Y''} CHR ''N''
      (ifstream_ctor (Some (''ant'' @ newline # ''baton'' @ newline # ''balloon'' @ newline #
         ''tybalt'' @ newline # ''xyz'' @ [newline]))) [])) = []"
  by code_simp


end
